theory Spec2Isabelle
  imports Main "HOL-Library.AList"
begin

section \<open>Capacity Block manager of the Slurm plugin (capacity_block_manager.py)\<close>

text \<open>
  A shallow embedding of \<^verbatim>\<open>src/slurm_plugin/capacity_block_manager.py\<close>.
  Python objects are records, Python dicts are association lists in insertion order
  (the order of \<^verbatim>\<open>.items()\<close> and \<^verbatim>\<open>.values()\<close>), exceptions are values of the type
  \<open>error\<close>, and every method that mutates \<^verbatim>\<open>self\<close> or talks to Slurm or EC2 takes the
  manager and the outside world and returns them updated, also when it raises: a Python
  exception leaves behind whatever was assigned before it.
\<close>

subsection \<open>Constants and plain data\<close>

definition CAPACITY_BLOCK_RESERVATION_UPDATE_PERIOD :: int where
  "CAPACITY_BLOCK_RESERVATION_UPDATE_PERIOD = 10"

definition SLURM_RESERVATION_NAME_PREFIX :: string where
  "SLURM_RESERVATION_NAME_PREFIX = ''pcluster-''"

datatype CapacityType = CAPACITY_BLOCK | ONDEMAND | SPOT

fun CapacityType_value :: "CapacityType \<Rightarrow> string" where
  "CapacityType_value CAPACITY_BLOCK = ''capacity-block''"
| "CapacityType_value ONDEMAND = ''on-demand''"
| "CapacityType_value SPOT = ''spot''"

text \<open>
  The exceptions the module can raise: a missing dict key, a method call on \<^verbatim>\<open>None\<close>,
  an operation on a value of the wrong type, and whatever the EC2 client raises (the
  client is an external collaborator).
\<close>

datatype error =
    KeyError string
  | AttributeError string
  | TypeError string
  | Ec2ClientError string

text \<open>
  A \<^verbatim>\<open>datetime\<close> is held as its seconds since the epoch. The difference of two of them
  is a \<^verbatim>\<open>timedelta\<close> object, not a number; it is held as the seconds it spans.
\<close>

datatype timedelta = Timedelta int

text \<open>
  What \<^verbatim>\<open>compute_resource_config.get("CapacityType", CapacityType.ONDEMAND)\<close> returns:
  the string stored in the config, or the enum member given as default (the member
  itself, not its value).
\<close>

datatype config_value = StrValue string | EnumMember CapacityType

type_synonym compute_resource_config = "(string \<times> string) list"
type_synonym queue_config = "(string \<times> compute_resource_config) list"
type_synonym fleet_config = "(string \<times> queue_config) list"

text \<open>
  \<^verbatim>\<open>aws.ec2.CapacityBlockReservationInfo\<close> is used through its two accessors
  \<^verbatim>\<open>capacity_reservation_id()\<close> and \<^verbatim>\<open>state()\<close>; \<^verbatim>\<open>SlurmNode\<close> through
  \<^verbatim>\<open>name\<close>, \<^verbatim>\<open>queue_name\<close> and \<^verbatim>\<open>compute_resource_name\<close>.
\<close>

record CapacityBlockReservationInfo =
  capacity_reservation_id :: string
  info_state :: string

record SlurmNode =
  node_name :: string
  node_queue_name :: string
  node_compute_resource_name :: string

subsection \<open>class CapacityBlock\<close>

record CapacityBlock =
  capacity_block_id :: string
  queue_name :: string
  compute_resource_name :: string
  capacity_block_reservation_info :: "CapacityBlockReservationInfo option"
  nodenames :: "string list"

definition new_CapacityBlock :: "string \<Rightarrow> string \<Rightarrow> string \<Rightarrow> CapacityBlock" where
  "new_CapacityBlock cb_id q cr =
     \<lparr>capacity_block_id = cb_id, queue_name = q, compute_resource_name = cr,
      capacity_block_reservation_info = None, nodenames = []\<rparr>"

definition update_ec2_info :: "CapacityBlockReservationInfo \<Rightarrow> CapacityBlock \<Rightarrow> CapacityBlock" where
  "update_ec2_info info cb = cb\<lparr>capacity_block_reservation_info := Some info\<rparr>"

definition slurm_reservation_name :: "CapacityBlock \<Rightarrow> string" where
  "slurm_reservation_name cb = SLURM_RESERVATION_NAME_PREFIX @ capacity_block_id cb"

definition add_nodename :: "string \<Rightarrow> CapacityBlock \<Rightarrow> CapacityBlock" where
  "add_nodename nodename cb = cb\<lparr>nodenames := nodenames cb @ [nodename]\<rparr>"

text \<open>
  \<^verbatim>\<open>state()\<close> calls \<^verbatim>\<open>self._capacity_block_reservation_info.state()\<close> with no test for
  \<^verbatim>\<open>None\<close>: on a block that never received EC2 info Python raises AttributeError.
\<close>

definition state :: "CapacityBlock \<Rightarrow> error + string" where
  "state cb =
     (case capacity_block_reservation_info cb of
        None \<Rightarrow> Inl (AttributeError ''state'')
      | Some info \<Rightarrow> Inr (info_state info))"

definition is_active :: "CapacityBlock \<Rightarrow> error + bool" where
  "is_active cb = (case state cb of Inl e \<Rightarrow> Inl e | Inr s \<Rightarrow> Inr (s = ''active''))"

definition does_node_belong_to :: "CapacityBlock \<Rightarrow> SlurmNode \<Rightarrow> bool" where
  "does_node_belong_to cb node \<longleftrightarrow>
     node_queue_name node = queue_name cb \<and>
     node_compute_resource_name node = compute_resource_name cb"

definition slurm_reservation_name_to_id :: "string \<Rightarrow> string" where
  "slurm_reservation_name_to_id name = drop (length SLURM_RESERVATION_NAME_PREFIX) name"

definition is_capacity_block_slurm_reservation :: "string \<Rightarrow> bool" where
  "is_capacity_block_slurm_reservation name \<longleftrightarrow>
     take (length SLURM_RESERVATION_NAME_PREFIX) name = SLURM_RESERVATION_NAME_PREFIX"

text \<open>Python's \<^verbatim>\<open>sep.join(xs)\<close>.\<close>

fun join :: "string \<Rightarrow> string list \<Rightarrow> string" where
  "join sep [] = []"
| "join sep [x] = x"
| "join sep (x # y # ys) = x @ sep @ join sep (y # ys)"

subsection \<open>The outside world: Slurm reservations, EC2, the clock\<close>

text \<open>
  The calls the module issues to Slurm are recorded in a trace, so that a statement
  about which commands a method issues is a statement about that trace.
\<close>

datatype slurm_call =
    DoesExist string
  | Create string int string
  | Update string string
  | Delete string
  | GetInfo

fun is_mutation :: "slurm_call \<Rightarrow> bool" where
  "is_mutation (Create _ _ _) = True"
| "is_mutation (Update _ _) = True"
| "is_mutation (Delete _) = True"
| "is_mutation _ = False"

text \<open>
  \<open>slurm_reservations\<close> are the reservations Slurm holds, as (name, nodes) pairs;
  \<open>ec2_response\<close> is what \<^verbatim>\<open>self.ec2_client().describe_capacity_reservations(ids)\<close>
  evaluates to, a list of infos or an exception; \<open>ec2_calls\<close> records the id lists it was
  asked for; \<open>now\<close> is the reading of \<^verbatim>\<open>datetime.now(tz=timezone.utc)\<close>, fixed during
  one call of the entry point.

  \<^verbatim>\<open>common.time_utils.seconds_to_minutes\<close> is not part of the sources at hand, and
  \<^verbatim>\<open>get_reserved_nodenames\<close> calls it on a \<^verbatim>\<open>timedelta\<close>, not on a number of seconds.
  So the helper is a parameter of the world: \<open>seconds_to_minutes\<close> is what the call
  on that \<^verbatim>\<open>timedelta\<close> evaluates to, a number of minutes, or the exception raised by it
  or by the comparison of its result with the integer period (a helper that computes
  \<^verbatim>\<open>int(value / 60)\<close> raises TypeError on a \<^verbatim>\<open>timedelta\<close>).
\<close>

record world =
  slurm_reservations :: "(string \<times> string) list"
  slurm_calls :: "slurm_call list"
  ec2_response :: "string list \<Rightarrow> error + CapacityBlockReservationInfo list"
  ec2_calls :: "string list list"
  now :: int
  seconds_to_minutes :: "timedelta \<Rightarrow> error + int"

text \<open>
  Modelled from the spec: the functions of \<^verbatim>\<open>common.schedulers.slurm_reservation_commands\<close>
  are not part of the sources at hand. The spec gives their contracts as
  \<^verbatim>\<open>exists(name) -> bool\<close>, \<^verbatim>\<open>create(name, startTime, nodeNames)\<close>,
  \<^verbatim>\<open>update(name, nodeNames)\<close> (overwrite, not merge), \<^verbatim>\<open>delete(name)\<close> and
  \<^verbatim>\<open>listAll() -> list<{name, nodeNames}>\<close>. Here each command succeeds and acts on the
  list of reservations in the obvious way; \<^verbatim>\<open>exists(name)\<close> looks the name up.
\<close>

definition does_slurm_reservation_exist :: "string \<Rightarrow> world \<Rightarrow> bool \<times> world" where
  "does_slurm_reservation_exist name w =
     (name \<in> set (map fst (slurm_reservations w)),
      w\<lparr>slurm_calls := slurm_calls w @ [DoesExist name]\<rparr>)"

text \<open>
  Modelled from the spec: \<^verbatim>\<open>create(name, startTime, nodeNames)\<close> of the absent module
  \<^verbatim>\<open>slurm_reservation_commands\<close> adds the reservation.
\<close>

definition create_slurm_reservation :: "string \<Rightarrow> int \<Rightarrow> string \<Rightarrow> world \<Rightarrow> world" where
  "create_slurm_reservation name start_time nodes w =
     w\<lparr>slurm_reservations := slurm_reservations w @ [(name, nodes)],
       slurm_calls := slurm_calls w @ [Create name start_time nodes]\<rparr>"

text \<open>
  Modelled from the spec: \<^verbatim>\<open>update(name, nodeNames)\<close> of the absent module
  \<^verbatim>\<open>slurm_reservation_commands\<close> overwrites the nodes of the reservation with that name.
\<close>

definition update_slurm_reservation :: "string \<Rightarrow> string \<Rightarrow> world \<Rightarrow> world" where
  "update_slurm_reservation name nodes w =
     w\<lparr>slurm_reservations :=
         map (\<lambda>r. if fst r = name then (name, nodes) else r) (slurm_reservations w),
       slurm_calls := slurm_calls w @ [Update name nodes]\<rparr>"

text \<open>
  Modelled from the spec: \<^verbatim>\<open>delete(name)\<close> of the absent module
  \<^verbatim>\<open>slurm_reservation_commands\<close> removes the reservation with that name.
\<close>

definition delete_slurm_reservation :: "string \<Rightarrow> world \<Rightarrow> world" where
  "delete_slurm_reservation name w =
     w\<lparr>slurm_reservations := filter (\<lambda>r. fst r \<noteq> name) (slurm_reservations w),
       slurm_calls := slurm_calls w @ [Delete name]\<rparr>"

text \<open>
  Modelled from the spec: \<^verbatim>\<open>listAll()\<close> of the absent module
  \<^verbatim>\<open>slurm_reservation_commands\<close> returns the reservations Slurm holds.
\<close>

definition get_slurm_reservations_info :: "world \<Rightarrow> (string \<times> string) list \<times> world" where
  "get_slurm_reservations_info w =
     (slurm_reservations w, w\<lparr>slurm_calls := slurm_calls w @ [GetInfo]\<rparr>)"

subsection \<open>class CapacityBlockManager\<close>

record CapacityBlockManager =
  fleet_config :: fleet_config
  capacity_blocks :: "(string \<times> CapacityBlock) list"
  capacity_blocks_update_time :: "int option"
  reserved_nodenames :: "string list"

text \<open>The state \<^verbatim>\<open>__init__\<close> leaves behind.\<close>

definition new_CapacityBlockManager :: "fleet_config \<Rightarrow> CapacityBlockManager" where
  "new_CapacityBlockManager fc =
     \<lparr>fleet_config = fc, capacity_blocks = [], capacity_blocks_update_time = None,
      reserved_nodenames = []\<rparr>"

definition is_compute_resource_associated_to_capacity_block :: "compute_resource_config \<Rightarrow> bool" where
  "is_compute_resource_associated_to_capacity_block compute_resource_config =
     (let capacity_type =
            (case map_of compute_resource_config ''CapacityType'' of
               None \<Rightarrow> EnumMember ONDEMAND
             | Some v \<Rightarrow> StrValue v)
      in capacity_type = StrValue (CapacityType_value CAPACITY_BLOCK))"

definition capacity_reservation_id_from_compute_resource_config ::
    "compute_resource_config \<Rightarrow> error + string" where
  "capacity_reservation_id_from_compute_resource_config compute_resource_config =
     (case map_of compute_resource_config ''CapacityReservationId'' of
        None \<Rightarrow> Inl (KeyError ''CapacityReservationId'')
      | Some v \<Rightarrow> Inr v)"

text \<open>
  The body of the inner loop of \<^verbatim>\<open>_capacity_blocks_from_config\<close>, for one compute
  resource of one queue, on the dict built so far.
\<close>

definition project_compute_resource ::
    "string \<Rightarrow> string \<times> compute_resource_config \<Rightarrow> (string \<times> CapacityBlock) list
     \<Rightarrow> error + (string \<times> CapacityBlock) list" where
  "project_compute_resource q entry acc =
     (if is_compute_resource_associated_to_capacity_block (snd entry) then
        (case capacity_reservation_id_from_compute_resource_config (snd entry) of
           Inl e \<Rightarrow> Inl e
         | Inr cb_id \<Rightarrow> Inr (AList.update cb_id (new_CapacityBlock cb_id q (fst entry)) acc))
      else Inr acc)"

fun project_queue ::
    "string \<Rightarrow> queue_config \<Rightarrow> (string \<times> CapacityBlock) list
     \<Rightarrow> error + (string \<times> CapacityBlock) list" where
  "project_queue q [] acc = Inr acc"
| "project_queue q (entry # rest) acc =
     (case project_compute_resource q entry acc of
        Inl e \<Rightarrow> Inl e
      | Inr acc' \<Rightarrow> project_queue q rest acc')"

fun project_fleet ::
    "fleet_config \<Rightarrow> (string \<times> CapacityBlock) list \<Rightarrow> error + (string \<times> CapacityBlock) list" where
  "project_fleet [] acc = Inr acc"
| "project_fleet (qe # rest) acc =
     (case project_queue (fst qe) (snd qe) acc of
        Inl e \<Rightarrow> Inl e
      | Inr acc' \<Rightarrow> project_fleet rest acc')"

definition capacity_blocks_from_config ::
    "CapacityBlockManager \<Rightarrow> error + (string \<times> CapacityBlock) list" where
  "capacity_blocks_from_config m = project_fleet (fleet_config m) []"

text \<open>
  The loop of \<^verbatim>\<open>_update_capacity_blocks_info_from_ec2\<close> over the infos EC2 returned:
  \<^verbatim>\<open>self._capacity_blocks[capacity_block_id]\<close> raises KeyError on an id that is not a key,
  after the infos before it have been stored.
\<close>

fun store_ec2_infos ::
    "CapacityBlockReservationInfo list \<Rightarrow> (string \<times> CapacityBlock) list
     \<Rightarrow> (error + unit) \<times> (string \<times> CapacityBlock) list" where
  "store_ec2_infos [] cbs = (Inr (), cbs)"
| "store_ec2_infos (info # rest) cbs =
     (case map_of cbs (capacity_reservation_id info) of
        None \<Rightarrow> (Inl (KeyError (capacity_reservation_id info)), cbs)
      | Some cb \<Rightarrow>
          store_ec2_infos rest
            (AList.update (capacity_reservation_id info) (update_ec2_info info cb) cbs))"

definition update_capacity_blocks_info_from_ec2 ::
    "CapacityBlockManager \<Rightarrow> world \<Rightarrow> (error + unit) \<times> CapacityBlockManager \<times> world" where
  "update_capacity_blocks_info_from_ec2 m w =
     (case capacity_blocks_from_config m of
        Inl e \<Rightarrow> (Inl e, m, w)
      | Inr cbs \<Rightarrow>
          if cbs \<noteq> [] then
            (let capacity_block_ids = map fst cbs;
                 w1 = w\<lparr>ec2_calls := ec2_calls w @ [capacity_block_ids]\<rparr>
             in case ec2_response w capacity_block_ids of
                  Inl e \<Rightarrow> (Inl e, m\<lparr>capacity_blocks := cbs\<rparr>, w1)
                | Inr infos \<Rightarrow>
                    (case store_ec2_infos infos cbs of
                       (Inl e, cbs') \<Rightarrow> (Inl e, m\<lparr>capacity_blocks := cbs'\<rparr>, w1)
                     | (Inr u, cbs') \<Rightarrow>
                         (Inr (),
                          m\<lparr>capacity_blocks := cbs',
                            capacity_blocks_update_time := Some (now w1)\<rparr>,
                          w1)))
          else
            (Inr (), m\<lparr>capacity_blocks := cbs, capacity_blocks_update_time := Some (now w)\<rparr>, w))"

text \<open>
  \<^verbatim>\<open>_associate_nodenames_to_capacity_blocks\<close>: the inner loop adds the node to the first
  block it belongs to and breaks.
\<close>

fun associate_node ::
    "SlurmNode \<Rightarrow> (string \<times> CapacityBlock) list \<Rightarrow> (string \<times> CapacityBlock) list" where
  "associate_node node [] = []"
| "associate_node node (kv # rest) =
     (if does_node_belong_to (snd kv) node
      then (fst kv, add_nodename (node_name node) (snd kv)) # rest
      else kv # associate_node node rest)"

fun associate_nodenames_to_capacity_blocks ::
    "SlurmNode list \<Rightarrow> (string \<times> CapacityBlock) list \<Rightarrow> (string \<times> CapacityBlock) list" where
  "associate_nodenames_to_capacity_blocks [] cbs = cbs"
| "associate_nodenames_to_capacity_blocks (node # rest) cbs =
     associate_nodenames_to_capacity_blocks rest (associate_node node cbs)"

text \<open>
  \<^verbatim>\<open>_update_slurm_reservation\<close> (named after its class here, the imported Slurm command
  has the plain name). The existence query is issued first; \<^verbatim>\<open>is_active()\<close> may then
  raise.
\<close>

definition manager_update_slurm_reservation ::
    "CapacityBlock \<Rightarrow> world \<Rightarrow> (error + string list) \<times> world" where
  "manager_update_slurm_reservation capacity_block w =
     (let name = slurm_reservation_name capacity_block;
          capacity_block_nodes = nodenames capacity_block;
          capacity_block_nodenames = join '','' capacity_block_nodes;
          (reservation_exists, w1) = does_slurm_reservation_exist name w
      in case is_active capacity_block of
           Inl e \<Rightarrow> (Inl e, w1)
         | Inr True \<Rightarrow>
             if reservation_exists then (Inr [], delete_slurm_reservation name w1)
             else (Inr [], w1)
         | Inr False \<Rightarrow>
             if reservation_exists
             then (Inr capacity_block_nodes,
                   update_slurm_reservation name capacity_block_nodenames w1)
             else (Inr capacity_block_nodes,
                   create_slurm_reservation name (now w1) capacity_block_nodenames w1))"

text \<open>
  The loop of \<^verbatim>\<open>get_reserved_nodenames\<close> over \<^verbatim>\<open>self._capacity_blocks.values()\<close>,
  extending \<^verbatim>\<open>reserved_nodenames\<close>.
\<close>

fun update_slurm_reservations ::
    "CapacityBlock list \<Rightarrow> string list \<Rightarrow> world \<Rightarrow> (error + string list) \<times> world" where
  "update_slurm_reservations [] reserved w = (Inr reserved, w)"
| "update_slurm_reservations (cb # rest) reserved w =
     (case manager_update_slurm_reservation cb w of
        (Inl e, w') \<Rightarrow> (Inl e, w')
      | (Inr nodes, w') \<Rightarrow> update_slurm_reservations rest (reserved @ nodes) w')"

text \<open>\<^verbatim>\<open>_cleanup_leftover_slurm_reservations\<close>: the loop over the listed reservations.\<close>

fun cleanup_loop :: "(string \<times> string) list \<Rightarrow> string list \<Rightarrow> world \<Rightarrow> world" where
  "cleanup_loop [] keys w = w"
| "cleanup_loop (r # rest) keys w =
     (if is_capacity_block_slurm_reservation (fst r) then
        (if slurm_reservation_name_to_id (fst r) \<notin> set keys
         then cleanup_loop rest keys (delete_slurm_reservation (fst r) w)
         else cleanup_loop rest keys w)
      else cleanup_loop rest keys w)"

definition cleanup_leftover_slurm_reservations :: "CapacityBlockManager \<Rightarrow> world \<Rightarrow> world" where
  "cleanup_leftover_slurm_reservations m w =
     (let (slurm_reservations, w1) = get_slurm_reservations_info w
      in cleanup_loop slurm_reservations (map fst (capacity_blocks m)) w1)"

text \<open>
  \<^verbatim>\<open>is_time_to_update\<close> of \<^verbatim>\<open>get_reserved_nodenames\<close>: Python's \<^verbatim>\<open>and\<close> gives
  \<^verbatim>\<open>None\<close>, which is false, when \<^verbatim>\<open>self._capacity_blocks_update_time\<close> is \<^verbatim>\<open>None\<close>.
  Otherwise \<^verbatim>\<open>seconds_to_minutes\<close> is called on the \<^verbatim>\<open>timedelta\<close>
  \<^verbatim>\<open>datetime.now(tz=timezone.utc) - self._capacity_blocks_update_time\<close>, and an exception
  of that call leaves the method before anything is assigned.
\<close>

definition is_time_to_update :: "CapacityBlockManager \<Rightarrow> world \<Rightarrow> error + bool" where
  "is_time_to_update m w =
     (case capacity_blocks_update_time m of
        None \<Rightarrow> Inr False
      | Some t \<Rightarrow>
          (case seconds_to_minutes w (Timedelta (now w - t)) of
             Inl e \<Rightarrow> Inl e
           | Inr minutes \<Rightarrow> Inr (minutes > CAPACITY_BLOCK_RESERVATION_UPDATE_PERIOD)))"

definition get_reserved_nodenames ::
    "SlurmNode list \<Rightarrow> CapacityBlockManager \<Rightarrow> world
     \<Rightarrow> (error + string list) \<times> CapacityBlockManager \<times> world" where
  "get_reserved_nodenames nodes m w =
     (case is_time_to_update m w of
        Inl e \<Rightarrow> (Inl e, m, w)
      | Inr True \<Rightarrow>
        (case update_capacity_blocks_info_from_ec2 m w of
           (Inl e, m1, w1) \<Rightarrow> (Inl e, m1, w1)
         | (Inr u, m1, w1) \<Rightarrow>
             (let m2 = m1\<lparr>capacity_blocks :=
                          associate_nodenames_to_capacity_blocks nodes (capacity_blocks m1)\<rparr>
              in case update_slurm_reservations (map snd (capacity_blocks m2)) [] w1 of
                   (Inl e, w2) \<Rightarrow> (Inl e, m2, w2)
                 | (Inr reserved, w2) \<Rightarrow>
                     (let m3 = m2\<lparr>reserved_nodenames := reserved\<rparr>;
                          w3 = cleanup_leftover_slurm_reservations m3 w2
                      in (Inr (reserved_nodenames m3), m3, w3))))
      | Inr False \<Rightarrow> (Inr (reserved_nodenames m), m, w))"

subsection \<open>Notions used in the statements\<close>

text \<open>
  A leftover reservation, in the words of the specification: its name carries the
  reserved prefix and the id recovered from the suffix is not a key of the current
  records.
\<close>

definition is_leftover :: "string list \<Rightarrow> string \<Rightarrow> bool" where
  "is_leftover keys name \<longleftrightarrow>
     is_capacity_block_slurm_reservation name \<and> slurm_reservation_name_to_id name \<notin> set keys"

text \<open>The names of the reservations Slurm holds.\<close>

definition reservation_names :: "world \<Rightarrow> string set" where
  "reservation_names w = set (map fst (slurm_reservations w))"

text \<open>
  Two invariants of the records during a refresh: a record carries the queue and the
  compute resource of a configuration entry that is associated to a capacity block, and
  every node name bound to a record is the name of one of the given nodes that belongs
  to it.
\<close>

definition from_capacity_block_entry :: "fleet_config \<Rightarrow> CapacityBlock \<Rightarrow> bool" where
  "from_capacity_block_entry fc cb \<longleftrightarrow>
     (\<exists>qe \<in> set fc. \<exists>entry \<in> set (snd qe).
        is_compute_resource_associated_to_capacity_block (snd entry)
        \<and> queue_name cb = fst qe \<and> compute_resource_name cb = fst entry)"

definition bound_to_own_nodes :: "SlurmNode list \<Rightarrow> CapacityBlock \<Rightarrow> bool" where
  "bound_to_own_nodes nodes cb \<longleftrightarrow>
     (\<forall>x \<in> set (nodenames cb). \<exists>n \<in> set nodes. node_name n = x \<and> does_node_belong_to cb n)"

subsection \<open>Concrete inputs\<close>

text \<open>
  A world with no Slurm reservation, in which EC2 knows no capacity reservation, one hour
  after the epoch, and in which \<^verbatim>\<open>seconds_to_minutes\<close> accepts a \<^verbatim>\<open>timedelta\<close> and
  returns its whole minutes; and a manager whose last update was at the epoch, so that
  in this world the next call of the entry point refreshes.
\<close>

definition ex_world :: world where
  "ex_world = \<lparr>slurm_reservations = [], slurm_calls = [],
     ec2_response = (\<lambda>ids. Inr []), ec2_calls = [], now = 3600,
     seconds_to_minutes = (\<lambda>d. case d of Timedelta s \<Rightarrow> Inr (s div 60))\<rparr>"

definition ex_manager :: "fleet_config \<Rightarrow> CapacityBlockManager" where
  "ex_manager fc = (new_CapacityBlockManager fc)\<lparr>capacity_blocks_update_time := Some 0\<rparr>"

definition ex_fleet_ondemand :: fleet_config where
  "ex_fleet_ondemand =
     [(''q1'', [(''cr1'', [(''CapacityType'', ''on-demand'')]),
                (''cr2'', [(''Api'', ''create-fleet'')])]),
      (''q2'', [(''cr1'', [(''CapacityType'', ''spot'')])])]"

text \<open>
  A fleet with one capacity block \<^verbatim>\<open>cr-1\<close> on \<^verbatim>\<open>q1\<close>/\<^verbatim>\<open>cr1\<close>, and the same fleet with a
  second compute resource that has no capacity type; nodes of both compute resources; a
  record as a refresh leaves it, with EC2 info and two bound nodes; worlds in which the
  describe call raises, in which EC2 reports \<^verbatim>\<open>cr-1\<close> as pending, and in which Slurm
  holds four reservations; a manager as a successful refresh leaves it.
\<close>

definition ex_fleet_cb :: fleet_config where
  "ex_fleet_cb =
     [(''q1'', [(''cr1'', [(''CapacityType'', ''capacity-block''),
                           (''CapacityReservationId'', ''cr-1'')])])]"

definition ex_fleet_mixed :: fleet_config where
  "ex_fleet_mixed =
     [(''q1'', [(''cr1'', [(''CapacityType'', ''capacity-block''),
                           (''CapacityReservationId'', ''cr-1'')]),
                (''cr2'', [(''Api'', ''create-fleet'')])])]"

definition ex_node :: SlurmNode where
  "ex_node = \<lparr>node_name = ''q1-st-cr1-1'', node_queue_name = ''q1'',
               node_compute_resource_name = ''cr1''\<rparr>"

definition ex_node2 :: SlurmNode where
  "ex_node2 = \<lparr>node_name = ''q1-st-cr2-1'', node_queue_name = ''q1'',
                node_compute_resource_name = ''cr2''\<rparr>"

definition ex_block :: "string \<Rightarrow> string \<Rightarrow> CapacityBlock" where
  "ex_block cb_id st =
     \<lparr>capacity_block_id = cb_id, queue_name = ''q1'', compute_resource_name = ''cr1'',
      capacity_block_reservation_info = Some \<lparr>capacity_reservation_id = cb_id, info_state = st\<rparr>,
      nodenames = [''q1-st-cr1-1'', ''q1-st-cr1-2'']\<rparr>"

definition ex_world_ec2_down :: world where
  "ex_world_ec2_down = ex_world\<lparr>ec2_response := (\<lambda>ids. Inl (Ec2ClientError ''InternalError''))\<rparr>"

definition ex_world_pending :: world where
  "ex_world_pending = ex_world\<lparr>ec2_response :=
      (\<lambda>ids. Inr [\<lparr>capacity_reservation_id = ''cr-1'', info_state = ''pending''\<rparr>])\<rparr>"

definition ex_manager_refreshed :: CapacityBlockManager where
  "ex_manager_refreshed =
     \<lparr>fleet_config = ex_fleet_cb,
      capacity_blocks = [(''cr-1'', ex_block ''cr-1'' ''pending'')],
      capacity_blocks_update_time = Some 0,
      reserved_nodenames = [''q1-st-cr1-1'', ''q1-st-cr1-2'']\<rparr>"

definition ex_world_reservations :: world where
  "ex_world_reservations = ex_world\<lparr>slurm_reservations :=
      [(''pcluster-cr-1'', ''q1-st-cr1-1''), (''maintenance'', ''q2-st-cr1-1''),
       (''pcluster-cr-9'', ''q3-st-cr1-1''), (''pcluster'', ''q4-st-cr1-1'')]\<rparr>"

section \<open>Properties\<close>

subsection \<open>The naming convention\<close>

text \<open>
  Claim C9. The Slurm reservation name of a capacity block is the fixed prefix followed by
  the block's id, and taking the suffix of that name gives the id back. So two blocks with
  the same reservation name have the same id, every derived name carries the prefix, and
  a name that carries the prefix is the prefix followed by the id recovered from it.
\<close>

theorem reservation_name_invertible:
  "slurm_reservation_name_to_id (slurm_reservation_name cb) = capacity_block_id cb
   \<and> is_capacity_block_slurm_reservation (slurm_reservation_name cb)
   \<and> (slurm_reservation_name cb = slurm_reservation_name cb'
        \<longrightarrow> capacity_block_id cb = capacity_block_id cb')
   \<and> (is_capacity_block_slurm_reservation name
        \<longrightarrow> SLURM_RESERVATION_NAME_PREFIX @ slurm_reservation_name_to_id name = name)"
proof -
  have inv: "slurm_reservation_name_to_id (slurm_reservation_name c) = capacity_block_id c" for c
    by (simp add: slurm_reservation_name_to_id_def slurm_reservation_name_def)
  have pre: "is_capacity_block_slurm_reservation (slurm_reservation_name cb)"
    by (simp add: is_capacity_block_slurm_reservation_def slurm_reservation_name_def)
  have inj: "capacity_block_id cb = capacity_block_id cb'"
    if "slurm_reservation_name cb = slurm_reservation_name cb'"
    using inv [of cb] inv [of cb'] that by simp
  have suffix: "SLURM_RESERVATION_NAME_PREFIX @ slurm_reservation_name_to_id name = name"
    if "is_capacity_block_slurm_reservation name"
  proof -
    have "take (length SLURM_RESERVATION_NAME_PREFIX) name
            @ drop (length SLURM_RESERVATION_NAME_PREFIX) name = name"
      by (rule append_take_drop_id)
    with that show ?thesis
      by (simp add: is_capacity_block_slurm_reservation_def slurm_reservation_name_to_id_def)
  qed
  from inv pre inj suffix show ?thesis by blast
qed

theorem reservation_name_invertible_witness:
  "slurm_reservation_name (new_CapacityBlock ''cr-1'' ''q1'' ''cr1'')
     = slurm_reservation_name (new_CapacityBlock ''cr-1'' ''q2'' ''cr2'')
   \<and> is_capacity_block_slurm_reservation ''pcluster-cr-1''
   \<and> slurm_reservation_name_to_id (slurm_reservation_name (new_CapacityBlock ''cr-1'' ''q1'' ''cr1''))
       = ''cr-1''
   \<and> capacity_block_id (new_CapacityBlock ''cr-1'' ''q1'' ''cr1'')
       = capacity_block_id (new_CapacityBlock ''cr-1'' ''q2'' ''cr2'')
   \<and> SLURM_RESERVATION_NAME_PREFIX @ slurm_reservation_name_to_id ''pcluster-cr-1''
       = ''pcluster-cr-1''"
  using reservation_name_invertible
          [of "new_CapacityBlock ''cr-1'' ''q1'' ''cr1''"
              "new_CapacityBlock ''cr-1'' ''q2'' ''cr2''" "''pcluster-cr-1''"]
  by (simp add: slurm_reservation_name_def new_CapacityBlock_def
        is_capacity_block_slurm_reservation_def SLURM_RESERVATION_NAME_PREFIX_def)

subsection \<open>The first call of the entry point\<close>

text \<open>
  Claim C1. On a manager as \<^verbatim>\<open>__init__\<close> leaves it (no refresh timestamp), the claim
  asks the first call of \<^verbatim>\<open>get_reserved_nodenames\<close> to run the whole refresh. The code
  does not: with \<^verbatim>\<open>self._capacity_blocks_update_time\<close> equal to \<^verbatim>\<open>None\<close> the
  condition \<^verbatim>\<open>is_time_to_update\<close> is false, so for every fleet configuration, every node
  list and every world the call returns the initial empty list and leaves the manager
  and the world as they were: no record is derived, EC2 and Slurm are not called, and the
  timestamp stays unset.
\<close>

theorem first_call_does_not_refresh:
  "get_reserved_nodenames nodes (new_CapacityBlockManager fc) w
     = (Inr [], new_CapacityBlockManager fc, w)"
  by (simp add: get_reserved_nodenames_def is_time_to_update_def new_CapacityBlockManager_def)

text \<open>
  Once a timestamp is set, the guard calls \<^verbatim>\<open>seconds_to_minutes\<close> on a
  \<^verbatim>\<open>timedelta\<close>. If that call raises, the entry point raises the same exception and
  changes nothing.
\<close>

lemma guard_raises:
  assumes "capacity_blocks_update_time m = Some t"
    and "seconds_to_minutes w (Timedelta (now w - t)) = Inl e"
  shows "get_reserved_nodenames nodes m w = (Inl e, m, w)"
  using assms by (simp add: get_reserved_nodenames_def is_time_to_update_def)

subsection \<open>The projection of the fleet configuration\<close>

lemma ex_time_to_update: "is_time_to_update (ex_manager fc) ex_world = Inr True"
  by (simp add: is_time_to_update_def ex_manager_def ex_world_def
        CAPACITY_BLOCK_RESERVATION_UPDATE_PERIOD_def new_CapacityBlockManager_def)

lemma fleet_config_ex_manager: "fleet_config (ex_manager fc) = fc"
  by (simp add: ex_manager_def new_CapacityBlockManager_def)

text \<open>The only exception the projection raises is the KeyError of the missing id.\<close>

lemma project_compute_resource_error:
  "project_compute_resource q entry acc = Inl e \<Longrightarrow> e = KeyError ''CapacityReservationId''"
  by (auto simp: project_compute_resource_def
        capacity_reservation_id_from_compute_resource_config_def
      split: if_splits option.splits)

lemma project_queue_error:
  "project_queue q qc acc = Inl e \<Longrightarrow> e = KeyError ''CapacityReservationId''"
  by (induction qc arbitrary: acc)
     (auto split: sum.splits dest: project_compute_resource_error)

lemma project_fleet_error:
  "project_fleet fc acc = Inl e \<Longrightarrow> e = KeyError ''CapacityReservationId''"
  by (induction fc arbitrary: acc)
     (auto split: sum.splits dest: project_queue_error)

lemma project_compute_resource_missing_id:
  assumes "is_compute_resource_associated_to_capacity_block (snd entry)"
    and "map_of (snd entry) ''CapacityReservationId'' = None"
  shows "project_compute_resource q entry acc = Inl (KeyError ''CapacityReservationId'')"
  using assms
  by (simp add: project_compute_resource_def
        capacity_reservation_id_from_compute_resource_config_def)

lemma project_queue_missing_id:
  assumes "entry \<in> set qc"
    and "is_compute_resource_associated_to_capacity_block (snd entry)"
    and "map_of (snd entry) ''CapacityReservationId'' = None"
  shows "project_queue q qc acc = Inl (KeyError ''CapacityReservationId'')"
  using assms(1)
proof (induction qc arbitrary: acc)
  case Nil
  then show ?case by simp
next
  case (Cons x xs)
  show ?case
  proof (cases "project_compute_resource q x acc")
    case (Inl e)
    then show ?thesis using project_compute_resource_error [OF Inl] by simp
  next
    case (Inr acc')
    then have "x \<noteq> entry"
      using project_compute_resource_missing_id [OF assms(2,3), of q acc] by auto
    with Cons.prems have "entry \<in> set xs" by auto
    then show ?thesis using Inr Cons.IH by simp
  qed
qed

lemma project_fleet_missing_id:
  assumes "qe \<in> set fc" and "entry \<in> set (snd qe)"
    and "is_compute_resource_associated_to_capacity_block (snd entry)"
    and "map_of (snd entry) ''CapacityReservationId'' = None"
  shows "project_fleet fc acc = Inl (KeyError ''CapacityReservationId'')"
  using assms(1)
proof (induction fc arbitrary: acc)
  case Nil
  then show ?case by simp
next
  case (Cons x xs)
  show ?case
  proof (cases "project_queue (fst x) (snd x) acc")
    case (Inl e)
    then show ?thesis using project_queue_error [OF Inl] by simp
  next
    case (Inr acc')
    then have "x \<noteq> qe"
      using project_queue_missing_id [OF assms(2,3,4), of "fst qe" acc] by auto
    with Cons.prems have "qe \<in> set xs" by auto
    then show ?thesis using Inr Cons.IH by simp
  qed
qed

lemma capacity_type_marker:
  "map_of crc ''CapacityType'' = Some (CapacityType_value CAPACITY_BLOCK)
   \<Longrightarrow> is_compute_resource_associated_to_capacity_block crc"
  by (simp add: is_compute_resource_associated_to_capacity_block_def)

text \<open>
  Claim C5. If some compute resource of the fleet configuration has the capacity type
  \<^verbatim>\<open>capacity-block\<close> and no \<^verbatim>\<open>CapacityReservationId\<close>, the projection
  \<^verbatim>\<open>_capacity_blocks_from_config\<close> raises the KeyError of that field and returns no
  record at all; and a refreshing call of the entry point raises the same error to its
  caller, with the manager and the world as they were.
\<close>

theorem missing_reservation_id_raises:
  assumes "(q, qc) \<in> set (fleet_config m)" and "(cr, crc) \<in> set qc"
    and "map_of crc ''CapacityType'' = Some (CapacityType_value CAPACITY_BLOCK)"
    and "map_of crc ''CapacityReservationId'' = None"
  shows "capacity_blocks_from_config m = Inl (KeyError ''CapacityReservationId'')
    \<and> (is_time_to_update m w = Inr True \<longrightarrow>
         get_reserved_nodenames nodes m w = (Inl (KeyError ''CapacityReservationId''), m, w))"
proof -
  have cb: "is_compute_resource_associated_to_capacity_block (snd (cr, crc))"
    using assms(3) by (simp add: capacity_type_marker)
  have proj: "capacity_blocks_from_config m = Inl (KeyError ''CapacityReservationId'')"
    unfolding capacity_blocks_from_config_def
    using project_fleet_missing_id [of "(q, qc)" "fleet_config m" "(cr, crc)" "[]"] assms cb
    by simp
  then show ?thesis
    by (simp add: get_reserved_nodenames_def update_capacity_blocks_info_from_ec2_def)
qed

theorem missing_reservation_id_raises_witness:
  "(''q1'', [(''cr1'', [(''CapacityType'', ''capacity-block'')])])
      \<in> set (fleet_config
           (ex_manager [(''q1'', [(''cr1'', [(''CapacityType'', ''capacity-block'')])])]))
   \<and> (''cr1'', [(''CapacityType'', ''capacity-block'')])
      \<in> set [(''cr1'', [(''CapacityType'', ''capacity-block'')])]
   \<and> map_of [(''CapacityType'', ''capacity-block'')] ''CapacityType''
        = Some (CapacityType_value CAPACITY_BLOCK)
   \<and> map_of [(''CapacityType'', ''capacity-block'')] ''CapacityReservationId'' = None
   \<and> is_time_to_update
        (ex_manager [(''q1'', [(''cr1'', [(''CapacityType'', ''capacity-block'')])])]) ex_world
      = Inr True
   \<and> capacity_blocks_from_config
        (ex_manager [(''q1'', [(''cr1'', [(''CapacityType'', ''capacity-block'')])])])
      = Inl (KeyError ''CapacityReservationId'')
   \<and> get_reserved_nodenames []
        (ex_manager [(''q1'', [(''cr1'', [(''CapacityType'', ''capacity-block'')])])]) ex_world
      = (Inl (KeyError ''CapacityReservationId''),
         ex_manager [(''q1'', [(''cr1'', [(''CapacityType'', ''capacity-block'')])])], ex_world)"
  using missing_reservation_id_raises
      [of "''q1''" "[(''cr1'', [(''CapacityType'', ''capacity-block'')])]"
          "ex_manager [(''q1'', [(''cr1'', [(''CapacityType'', ''capacity-block'')])])]"
          "''cr1''" "[(''CapacityType'', ''capacity-block'')]" ex_world "[]"]
    ex_time_to_update
  by (simp add: fleet_config_ex_manager)

subsection \<open>A fleet without capacity blocks\<close>

lemma no_capacity_type:
  "map_of crc ''CapacityType'' = None
   \<Longrightarrow> \<not> is_compute_resource_associated_to_capacity_block crc"
  by (simp add: is_compute_resource_associated_to_capacity_block_def)

lemma project_queue_none:
  "\<forall>entry \<in> set qc. \<not> is_compute_resource_associated_to_capacity_block (snd entry)
   \<Longrightarrow> project_queue q qc acc = Inr acc"
  by (induction qc arbitrary: acc) (simp_all add: project_compute_resource_def)

lemma project_fleet_none:
  "\<forall>qe \<in> set fc. \<forall>entry \<in> set (snd qe).
      \<not> is_compute_resource_associated_to_capacity_block (snd entry)
   \<Longrightarrow> project_fleet fc acc = Inr acc"
  by (induction fc arbitrary: acc) (simp_all add: project_queue_none)

lemma ec2_calls_cleanup_loop [simp]:
  "ec2_calls (cleanup_loop rs keys w) = ec2_calls w"
  by (induction rs arbitrary: w) (simp_all add: delete_slurm_reservation_def)

lemma ec2_calls_cleanup [simp]:
  "ec2_calls (cleanup_leftover_slurm_reservations m w) = ec2_calls w"
  by (simp add: cleanup_leftover_slurm_reservations_def get_slurm_reservations_info_def)

lemma associate_nodenames_Nil [simp]: "associate_nodenames_to_capacity_blocks nodes [] = []"
  by (induction nodes) simp_all

text \<open>
  Claim C8. If no compute resource of the fleet configuration is associated to a capacity
  block, a refreshing call of the entry point returns the empty list, caches the empty
  list, keeps no record, and does not call EC2: the trace of describe calls is the one
  from before the call.
\<close>

theorem no_capacity_block_no_ec2_call:
  assumes "\<forall>qe \<in> set (fleet_config m). \<forall>entry \<in> set (snd qe).
             \<not> is_compute_resource_associated_to_capacity_block (snd entry)"
    and "is_time_to_update m w = Inr True"
  shows "(case get_reserved_nodenames nodes m w of
            (result, m', w') \<Rightarrow>
              result = Inr [] \<and> ec2_calls w' = ec2_calls w
              \<and> reserved_nodenames m' = [] \<and> capacity_blocks m' = [])"
proof -
  have "capacity_blocks_from_config m = Inr []"
    unfolding capacity_blocks_from_config_def using assms(1) by (rule project_fleet_none)
  with assms(2) show ?thesis
    by (simp add: get_reserved_nodenames_def update_capacity_blocks_info_from_ec2_def Let_def)
qed

theorem no_capacity_block_no_ec2_call_witness:
  "is_time_to_update (ex_manager ex_fleet_ondemand) ex_world = Inr True
   \<and> fst (get_reserved_nodenames
        [\<lparr>node_name = ''q1-st-cr1-1'', node_queue_name = ''q1'',
          node_compute_resource_name = ''cr1''\<rparr>]
        (ex_manager ex_fleet_ondemand) ex_world) = Inr []
   \<and> ec2_calls (snd (snd (get_reserved_nodenames
        [\<lparr>node_name = ''q1-st-cr1-1'', node_queue_name = ''q1'',
          node_compute_resource_name = ''cr1''\<rparr>]
        (ex_manager ex_fleet_ondemand) ex_world))) = []"
proof -
  have h1: "\<forall>qe \<in> set (fleet_config (ex_manager ex_fleet_ondemand)). \<forall>entry \<in> set (snd qe).
             \<not> is_compute_resource_associated_to_capacity_block (snd entry)"
    by (simp add: fleet_config_ex_manager ex_fleet_ondemand_def
          is_compute_resource_associated_to_capacity_block_def)
  have h2: "is_time_to_update (ex_manager ex_fleet_ondemand) ex_world = Inr True"
    by (rule ex_time_to_update)
  have e: "ec2_calls ex_world = []" by (simp add: ex_world_def)
  show ?thesis
    using h1 h2 e no_capacity_block_no_ec2_call [OF h1 h2,
      of "[\<lparr>node_name = ''q1-st-cr1-1'', node_queue_name = ''q1'',
            node_compute_resource_name = ''cr1''\<rparr>]"]
    by (simp add: case_prod_beta)
qed

subsection \<open>Evaluation of the concrete inputs\<close>

lemmas eval_defs =
  manager_update_slurm_reservation_def does_slurm_reservation_exist_def
  create_slurm_reservation_def update_slurm_reservation_def delete_slurm_reservation_def
  get_slurm_reservations_info_def is_active_def state_def slurm_reservation_name_def
  SLURM_RESERVATION_NAME_PREFIX_def ex_world_def ex_block_def ex_fleet_cb_def ex_node_def
  ex_world_ec2_down_def ex_manager_refreshed_def ex_world_reservations_def
  ex_manager_def new_CapacityBlockManager_def new_CapacityBlock_def
  get_reserved_nodenames_def is_time_to_update_def
  CAPACITY_BLOCK_RESERVATION_UPDATE_PERIOD_def update_capacity_blocks_info_from_ec2_def
  capacity_blocks_from_config_def project_compute_resource_def
  is_compute_resource_associated_to_capacity_block_def
  capacity_reservation_id_from_compute_resource_config_def
  cleanup_leftover_slurm_reservations_def is_capacity_block_slurm_reservation_def
  slurm_reservation_name_to_id_def does_node_belong_to_def add_nodename_def update_ec2_info_def
  is_leftover_def ex_fleet_mixed_def ex_node2_def ex_world_pending_def Let_def

subsection \<open>The sweep of leftover reservations\<close>

lemma cleanup_loop_calls:
  "slurm_calls (cleanup_loop rs keys w)
     = slurm_calls w @ map Delete (filter (is_leftover keys) (map fst rs))"
  by (induction rs arbitrary: w) (simp_all add: is_leftover_def delete_slurm_reservation_def)

lemma cleanup_loop_reservations:
  "slurm_reservations (cleanup_loop rs keys w)
     = filter (\<lambda>r. fst r \<notin> set (filter (is_leftover keys) (map fst rs))) (slurm_reservations w)"
proof (induction rs arbitrary: w)
  case Nil
  then show ?case by simp
next
  case (Cons r rs)
  show ?case
    by (auto simp: Cons.IH is_leftover_def delete_slurm_reservation_def intro: filter_cong)
qed

text \<open>
  Claim C7. Whatever reservations Slurm lists, the sweep issues the listing command and
  then one delete command for each listed reservation that is a leftover (its name
  carries the prefix and the id in its suffix is not a key of the current records), in
  the order of the list, and nothing else; afterwards Slurm holds exactly the
  reservations that are not leftovers, unchanged. So a reservation with the prefix whose
  id is a current key stays, and a reservation without the prefix stays.
\<close>

theorem sweep_deletes_exactly_leftovers:
  "slurm_calls (cleanup_leftover_slurm_reservations m w)
     = slurm_calls w @ GetInfo #
         map Delete (filter (is_leftover (map fst (capacity_blocks m)))
                            (map fst (slurm_reservations w)))
   \<and> slurm_reservations (cleanup_leftover_slurm_reservations m w)
     = filter (\<lambda>r. \<not> is_leftover (map fst (capacity_blocks m)) (fst r)) (slurm_reservations w)"
proof -
  let ?keys = "map fst (capacity_blocks m)"
  let ?w1 = "w\<lparr>slurm_calls := slurm_calls w @ [GetInfo]\<rparr>"
  have unfold: "cleanup_leftover_slurm_reservations m w
                  = cleanup_loop (slurm_reservations w) ?keys ?w1"
    by (simp add: cleanup_leftover_slurm_reservations_def get_slurm_reservations_info_def)
  have calls: "slurm_calls (cleanup_loop (slurm_reservations w) ?keys ?w1)
      = slurm_calls w @ GetInfo #
          map Delete (filter (is_leftover ?keys) (map fst (slurm_reservations w)))"
    by (simp add: cleanup_loop_calls)
  have "slurm_reservations (cleanup_loop (slurm_reservations w) ?keys ?w1)
      = filter (\<lambda>r. fst r \<notin> set (filter (is_leftover ?keys) (map fst (slurm_reservations w))))
          (slurm_reservations w)"
    by (simp add: cleanup_loop_reservations)
  also have "\<dots> = filter (\<lambda>r. \<not> is_leftover ?keys (fst r)) (slurm_reservations w)"
    by (rule filter_cong) auto
  finally show ?thesis using unfold calls by simp
qed

theorem sweep_deletes_exactly_leftovers_witness:
  "slurm_calls (cleanup_leftover_slurm_reservations ex_manager_refreshed ex_world_reservations)
     = [GetInfo, Delete ''pcluster-cr-9'']
   \<and> slurm_reservations (cleanup_leftover_slurm_reservations ex_manager_refreshed ex_world_reservations)
     = [(''pcluster-cr-1'', ''q1-st-cr1-1''), (''maintenance'', ''q2-st-cr1-1''),
        (''pcluster'', ''q4-st-cr1-1'')]"
  using sweep_deletes_exactly_leftovers [of ex_manager_refreshed ex_world_reservations]
  by (simp add: eval_defs)

subsection \<open>One capacity block\<close>

lemma manager_update_active:
  assumes "is_active cb = Inr True"
  shows "manager_update_slurm_reservation cb w =
    (Inr [],
     if slurm_reservation_name cb \<in> reservation_names w
     then delete_slurm_reservation (slurm_reservation_name cb)
            (w\<lparr>slurm_calls := slurm_calls w @ [DoesExist (slurm_reservation_name cb)]\<rparr>)
     else w\<lparr>slurm_calls := slurm_calls w @ [DoesExist (slurm_reservation_name cb)]\<rparr>)"
  using assms
  by (simp add: manager_update_slurm_reservation_def does_slurm_reservation_exist_def
        reservation_names_def Let_def)

lemma manager_update_inactive:
  assumes "is_active cb = Inr False"
  shows "manager_update_slurm_reservation cb w =
    (Inr (nodenames cb),
     if slurm_reservation_name cb \<in> reservation_names w
     then update_slurm_reservation (slurm_reservation_name cb) (join '','' (nodenames cb))
            (w\<lparr>slurm_calls := slurm_calls w @ [DoesExist (slurm_reservation_name cb)]\<rparr>)
     else create_slurm_reservation (slurm_reservation_name cb) (now w)
            (join '','' (nodenames cb))
            (w\<lparr>slurm_calls := slurm_calls w @ [DoesExist (slurm_reservation_name cb)]\<rparr>))"
  using assms
  by (simp add: manager_update_slurm_reservation_def does_slurm_reservation_exist_def
        reservation_names_def Let_def)

lemma manager_update_error:
  assumes "is_active cb = Inl e"
  shows "manager_update_slurm_reservation cb w =
    (Inl e, w\<lparr>slurm_calls := slurm_calls w @ [DoesExist (slurm_reservation_name cb)]\<rparr>)"
  using assms
  by (simp add: manager_update_slurm_reservation_def does_slurm_reservation_exist_def Let_def)

lemma state_active: "state cb = Inr ''active'' \<Longrightarrow> is_active cb = Inr True"
  by (simp add: is_active_def)

text \<open>
  Claim C6. For a capacity block in state \<^verbatim>\<open>active\<close>, \<^verbatim>\<open>_update_slurm_reservation\<close>
  returns no node name; after the existence query that decides the case it issues the
  delete command for the block's reservation if Slurm holds it and no command at all
  if not; afterwards Slurm holds the other reservations as before and none with that
  name. Run again on the resulting world, it returns no node name, issues the existence
  query only (no second delete) and leaves the reservations as they are.
\<close>

theorem active_block_reservation_deleted_once:
  assumes "state cb = Inr ''active''"
  shows "(case manager_update_slurm_reservation cb w of
            (nodes, w') \<Rightarrow>
              nodes = Inr []
            \<and> slurm_calls w' = slurm_calls w @ DoesExist (slurm_reservation_name cb) #
                (if slurm_reservation_name cb \<in> fst ` set (slurm_reservations w)
                 then [Delete (slurm_reservation_name cb)] else [])
            \<and> slurm_reservations w'
                = filter (\<lambda>r. fst r \<noteq> slurm_reservation_name cb) (slurm_reservations w)
            \<and> (case manager_update_slurm_reservation cb w' of
                 (nodes', w'') \<Rightarrow>
                   nodes' = Inr []
                 \<and> slurm_calls w'' = slurm_calls w' @ [DoesExist (slurm_reservation_name cb)]
                 \<and> slurm_reservations w'' = slurm_reservations w'))"
proof -
  let ?n = "slurm_reservation_name cb"
  have act: "is_active cb = Inr True" using assms by (rule state_active)
  have same: "filter (\<lambda>r. fst r \<noteq> ?n) (slurm_reservations w) = slurm_reservations w"
    if "?n \<notin> fst ` set (slurm_reservations w)"
    using that by (force simp: filter_id_conv)
  show ?thesis
    by (auto simp: manager_update_active [OF act] reservation_names_def
          delete_slurm_reservation_def same)
qed

theorem active_block_reservation_deleted_once_witness:
  "state (ex_block ''cr-1'' ''active'') = Inr ''active''
   \<and> fst (manager_update_slurm_reservation (ex_block ''cr-1'' ''active'') ex_world_reservations)
       = Inr []
   \<and> slurm_calls (snd (manager_update_slurm_reservation (ex_block ''cr-1'' ''active'')
        ex_world_reservations))
       = [DoesExist ''pcluster-cr-1'', Delete ''pcluster-cr-1'']
   \<and> slurm_reservations (snd (manager_update_slurm_reservation (ex_block ''cr-1'' ''active'')
        ex_world_reservations))
       = [(''maintenance'', ''q2-st-cr1-1''), (''pcluster-cr-9'', ''q3-st-cr1-1''),
          (''pcluster'', ''q4-st-cr1-1'')]
   \<and> slurm_calls (snd (manager_update_slurm_reservation (ex_block ''cr-1'' ''active'')
        (snd (manager_update_slurm_reservation (ex_block ''cr-1'' ''active'')
           ex_world_reservations))))
       = [DoesExist ''pcluster-cr-1'', Delete ''pcluster-cr-1'', DoesExist ''pcluster-cr-1'']"
proof -
  have h: "state (ex_block ''cr-1'' ''active'') = Inr ''active''"
    by (simp add: state_def ex_block_def)
  show ?thesis
    using active_block_reservation_deleted_once [OF h, of ex_world_reservations] by (simp add: eval_defs)
qed

subsection \<open>Running the reconciliation twice\<close>

lemma names_calls [simp]: "reservation_names (w\<lparr>slurm_calls := c\<rparr>) = reservation_names w"
  by (simp add: reservation_names_def)

lemma names_delete [simp]:
  "reservation_names (delete_slurm_reservation n w) = reservation_names w - {n}"
  by (auto simp: reservation_names_def delete_slurm_reservation_def)

lemma map_fst_overwrite:
  "map fst (map (\<lambda>r. if fst r = n then (n, ns) else r) rs) = map fst rs"
  by (induction rs) auto

lemma names_update [simp]:
  "reservation_names (update_slurm_reservation n ns w) = reservation_names w"
proof -
  have "slurm_reservations (update_slurm_reservation n ns w)
          = map (\<lambda>r. if fst r = n then (n, ns) else r) (slurm_reservations w)"
    by (simp add: update_slurm_reservation_def)
  then have "map fst (slurm_reservations (update_slurm_reservation n ns w))
          = map fst (slurm_reservations w)"
    by (simp only: map_fst_overwrite)
  then show ?thesis
    unfolding reservation_names_def by (simp only:)
qed

lemma names_create [simp]:
  "reservation_names (create_slurm_reservation n t ns w) = insert n (reservation_names w)"
  by (auto simp: reservation_names_def create_slurm_reservation_def)

lemma name_eq_iff:
  "slurm_reservation_name a = slurm_reservation_name b
   \<longleftrightarrow> capacity_block_id a = capacity_block_id b"
  by (simp add: slurm_reservation_name_def)

lemma step_names:
  assumes "manager_update_slurm_reservation cb w = (Inr ns, w')"
  shows "slurm_reservation_name cb \<in> reservation_names w' \<longleftrightarrow> is_active cb = Inr False"
    and "n \<noteq> slurm_reservation_name cb
         \<Longrightarrow> n \<in> reservation_names w' \<longleftrightarrow> n \<in> reservation_names w"
proof -
  consider e where "is_active cb = Inl e" | "is_active cb = Inr True" | "is_active cb = Inr False"
    by (cases "is_active cb") auto
  then have "(slurm_reservation_name cb \<in> reservation_names w' \<longleftrightarrow> is_active cb = Inr False)
     \<and> (n \<noteq> slurm_reservation_name cb
         \<longrightarrow> (n \<in> reservation_names w' \<longleftrightarrow> n \<in> reservation_names w))"
  proof cases
    case 1
    then show ?thesis using assms by (simp add: manager_update_error)
  next
    case 2
    then show ?thesis using assms by (auto simp: manager_update_active split: if_splits)
  next
    case 3
    then show ?thesis using assms by (auto simp: manager_update_inactive split: if_splits)
  qed
  then show "slurm_reservation_name cb \<in> reservation_names w' \<longleftrightarrow> is_active cb = Inr False"
    and "n \<noteq> slurm_reservation_name cb
         \<Longrightarrow> n \<in> reservation_names w' \<longleftrightarrow> n \<in> reservation_names w"
    by simp_all
qed

lemma first_run_names:
  assumes "update_slurm_reservations cbs acc w = (Inr r, w')"
    and "distinct (map capacity_block_id cbs)"
  shows "(\<forall>cb \<in> set cbs. slurm_reservation_name cb \<in> reservation_names w'
                            \<longleftrightarrow> is_active cb = Inr False)
       \<and> (\<forall>n. n \<notin> slurm_reservation_name ` set cbs
               \<longrightarrow> (n \<in> reservation_names w' \<longleftrightarrow> n \<in> reservation_names w))"
  using assms
proof (induction cbs arbitrary: acc w)
  case Nil
  then show ?case by simp
next
  case (Cons cb rest)
  from Cons.prems(1) obtain ns w1 where
    step: "manager_update_slurm_reservation cb w = (Inr ns, w1)"
    and run: "update_slurm_reservations rest (acc @ ns) w1 = (Inr r, w')"
    by (auto split: prod.splits sum.splits)
  from Cons.prems(2) have dist: "distinct (map capacity_block_id rest)"
    and fresh: "capacity_block_id cb \<notin> capacity_block_id ` set rest"
    by simp_all
  from fresh have notin: "slurm_reservation_name cb \<notin> slurm_reservation_name ` set rest"
    by (auto simp: name_eq_iff)
  note ih = Cons.IH [OF run dist]
  have head: "slurm_reservation_name cb \<in> reservation_names w' \<longleftrightarrow> is_active cb = Inr False"
    using ih notin step_names(1) [OF step] by blast
  have others: "n \<in> reservation_names w' \<longleftrightarrow> n \<in> reservation_names w"
    if "n \<notin> slurm_reservation_name ` set (cb # rest)" for n
  proof -
    from that have "n \<noteq> slurm_reservation_name cb" "n \<notin> slurm_reservation_name ` set rest"
      by auto
    then show ?thesis using ih step_names(2) [OF step] by blast
  qed
  from head others ih show ?case by auto
qed

lemma run_result:
  assumes "update_slurm_reservations cbs acc w = (Inr r, w')"
  shows "r = acc @ concat (map (\<lambda>cb. if is_active cb = Inr True then [] else nodenames cb) cbs)
       \<and> (\<forall>cb \<in> set cbs. \<exists>b. is_active cb = Inr b)"
  using assms
proof (induction cbs arbitrary: acc w)
  case Nil
  then show ?case by simp
next
  case (Cons cb rest)
  from Cons.prems obtain ns w1 where
    step: "manager_update_slurm_reservation cb w = (Inr ns, w1)"
    and run: "update_slurm_reservations rest (acc @ ns) w1 = (Inr r, w')"
    by (auto split: prod.splits sum.splits)
  have "(\<exists>b. is_active cb = Inr b)
      \<and> ns = (if is_active cb = Inr True then [] else nodenames cb)"
  proof (cases "is_active cb")
    case (Inl e)
    then show ?thesis using step by (simp add: manager_update_error)
  next
    case (Inr b)
    then show ?thesis using step
      by (cases b) (auto simp: manager_update_active manager_update_inactive)
  qed
  with Cons.IH [OF run] show ?case by auto
qed

lemma steady_run:
  assumes "\<forall>cb \<in> set cbs. slurm_reservation_name cb \<in> reservation_names w
                            \<longleftrightarrow> is_active cb = Inr False"
    and "\<forall>cb \<in> set cbs. \<exists>b. is_active cb = Inr b"
  shows "\<exists>w'. update_slurm_reservations cbs acc w
            = (Inr (acc @ concat (map (\<lambda>cb. if is_active cb = Inr True then []
                                             else nodenames cb) cbs)), w')
          \<and> slurm_calls w' = slurm_calls w @
              concat (map (\<lambda>cb. DoesExist (slurm_reservation_name cb) #
                     (if is_active cb = Inr True then []
                      else [Update (slurm_reservation_name cb) (join '','' (nodenames cb))])) cbs)
          \<and> reservation_names w' = reservation_names w"
  using assms
proof (induction cbs arbitrary: acc w)
  case Nil
  then show ?case by simp
next
  case (Cons cb rest)
  let ?n = "slurm_reservation_name cb"
  let ?q = "w\<lparr>slurm_calls := slurm_calls w @ [DoesExist ?n]\<rparr>"
  from Cons.prems(2) obtain b where b: "is_active cb = Inr b" by auto
  define w1 where "w1 = (if b then ?q else update_slurm_reservation ?n (join '','' (nodenames cb)) ?q)"
  have step: "manager_update_slurm_reservation cb w
                = (Inr (if is_active cb = Inr True then [] else nodenames cb), w1)"
    using b Cons.prems(1)
    by (cases b) (simp_all add: manager_update_active manager_update_inactive w1_def)
  have names1: "reservation_names w1 = reservation_names w"
    by (simp add: w1_def)
  have calls1: "slurm_calls w1 = slurm_calls w @ DoesExist ?n #
      (if is_active cb = Inr True then [] else [Update ?n (join '','' (nodenames cb))])"
    using b by (simp add: w1_def update_slurm_reservation_def)
  have pre1: "\<forall>c \<in> set rest. slurm_reservation_name c \<in> reservation_names w1
                            \<longleftrightarrow> is_active c = Inr False"
    using Cons.prems(1) names1 by simp
  have pre2: "\<forall>c \<in> set rest. \<exists>b. is_active c = Inr b"
    using Cons.prems(2) by simp
  from Cons.IH [OF pre1 pre2, of "acc @ (if is_active cb = Inr True then [] else nodenames cb)"]
  obtain w' where
    run: "update_slurm_reservations rest
            (acc @ (if is_active cb = Inr True then [] else nodenames cb)) w1
          = (Inr ((acc @ (if is_active cb = Inr True then [] else nodenames cb)) @
               concat (map (\<lambda>cb. if is_active cb = Inr True then [] else nodenames cb) rest)), w')"
    and calls: "slurm_calls w' = slurm_calls w1 @
              concat (map (\<lambda>cb. DoesExist (slurm_reservation_name cb) #
                     (if is_active cb = Inr True then []
                      else [Update (slurm_reservation_name cb) (join '','' (nodenames cb))])) rest)"
    and names: "reservation_names w' = reservation_names w1"
    by blast
  show ?case
    using step run calls names calls1 names1 by simp
qed

lemma steady_mutations:
  "\<forall>cb \<in> set cbs. \<exists>b. is_active cb = Inr b \<Longrightarrow>
   filter is_mutation
     (concat (map (\<lambda>cb. DoesExist (slurm_reservation_name cb) #
                     (if is_active cb = Inr True then []
                      else [Update (slurm_reservation_name cb) (join '','' (nodenames cb))])) cbs))
   = map (\<lambda>cb. Update (slurm_reservation_name cb) (join '','' (nodenames cb)))
       (filter (\<lambda>cb. is_active cb = Inr False) cbs)"
  by (induction cbs) auto

text \<open>
  Claim C2, as stated: a second run of the reconciliation over the same records issues
  no create, update or delete command. It fails for a block that is not active: the
  first run creates its reservation, and the second run finds the reservation and issues
  the update command for it.
\<close>

theorem second_reconciliation_issues_update:
  "filter is_mutation
     (drop (length (slurm_calls (snd (update_slurm_reservations [ex_block ''cr-1'' ''pending''] [] ex_world))))
        (slurm_calls (snd (update_slurm_reservations [ex_block ''cr-1'' ''pending''] []
           (snd (update_slurm_reservations [ex_block ''cr-1'' ''pending''] [] ex_world))))))
   = [Update ''pcluster-cr-1'' ''q1-st-cr1-1,q1-st-cr1-2'']"
  by (simp add: eval_defs)

text \<open>
  Claim C2, amended. For records with pairwise different ids, after a run of the
  reconciliation that raised no error, a second run over the same records returns the
  same node names, and the create, update and delete commands it issues are exactly one
  update command per record that is not active, in the order of the records, with the
  record's node names: no create command, no delete command, and no command for an
  active record.
\<close>

theorem second_reconciliation_only_updates:
  assumes "distinct (map capacity_block_id cbs)"
    and "update_slurm_reservations cbs [] w = (Inr reserved, w1)"
  shows "(case update_slurm_reservations cbs [] w1 of
            (reserved', w2) \<Rightarrow>
              reserved' = Inr reserved
            \<and> filter is_mutation (drop (length (slurm_calls w1)) (slurm_calls w2))
                = map (\<lambda>cb. Update (slurm_reservation_name cb) (join '','' (nodenames cb)))
                      (filter (\<lambda>cb. is_active cb = Inr False) cbs))"
proof -
  from run_result [OF assms(2)]
  have res: "reserved = concat (map (\<lambda>cb. if is_active cb = Inr True then []
                                           else nodenames cb) cbs)"
    and ok: "\<forall>cb \<in> set cbs. \<exists>b. is_active cb = Inr b"
    by simp_all
  from first_run_names [OF assms(2,1)]
  have inv: "\<forall>cb \<in> set cbs. slurm_reservation_name cb \<in> reservation_names w1
                            \<longleftrightarrow> is_active cb = Inr False"
    by simp
  from steady_run [OF inv ok, of "[]"] obtain w2 where
    run: "update_slurm_reservations cbs [] w1 = (Inr reserved, w2)"
    and calls: "slurm_calls w2 = slurm_calls w1 @
              concat (map (\<lambda>cb. DoesExist (slurm_reservation_name cb) #
                     (if is_active cb = Inr True then []
                      else [Update (slurm_reservation_name cb) (join '','' (nodenames cb))])) cbs)"
    using res by auto
  show ?thesis
    using run calls steady_mutations [OF ok] by simp
qed

theorem second_reconciliation_only_updates_witness:
  "distinct (map capacity_block_id [ex_block ''cr-1'' ''pending'', ex_block ''cr-2'' ''active''])
   \<and> fst (update_slurm_reservations [ex_block ''cr-1'' ''pending'', ex_block ''cr-2'' ''active''] []
            ex_world_reservations)
       = Inr [''q1-st-cr1-1'', ''q1-st-cr1-2'']
   \<and> fst (update_slurm_reservations [ex_block ''cr-1'' ''pending'', ex_block ''cr-2'' ''active''] []
        (snd (update_slurm_reservations [ex_block ''cr-1'' ''pending'', ex_block ''cr-2'' ''active''] []
            ex_world_reservations)))
       = Inr [''q1-st-cr1-1'', ''q1-st-cr1-2'']
   \<and> filter is_mutation
     (drop (length (slurm_calls (snd (update_slurm_reservations
               [ex_block ''cr-1'' ''pending'', ex_block ''cr-2'' ''active''] [] ex_world_reservations))))
        (slurm_calls (snd (update_slurm_reservations
               [ex_block ''cr-1'' ''pending'', ex_block ''cr-2'' ''active''] []
           (snd (update_slurm_reservations
               [ex_block ''cr-1'' ''pending'', ex_block ''cr-2'' ''active''] [] ex_world_reservations))))))
     = [Update ''pcluster-cr-1'' ''q1-st-cr1-1,q1-st-cr1-2'']"
proof -
  let ?cbs = "[ex_block ''cr-1'' ''pending'', ex_block ''cr-2'' ''active'']"
  have h1: "distinct (map capacity_block_id ?cbs)"
    by (simp add: ex_block_def)
  have h2: "update_slurm_reservations ?cbs [] ex_world_reservations
      = (Inr [''q1-st-cr1-1'', ''q1-st-cr1-2''],
         snd (update_slurm_reservations ?cbs [] ex_world_reservations))"
    by (simp add: eval_defs)
  have act: "filter (\<lambda>cb. is_active cb = Inr False) ?cbs = [ex_block ''cr-1'' ''pending'']"
    by (simp add: eval_defs)
  have nm: "map (\<lambda>cb. Update (slurm_reservation_name cb) (join '','' (nodenames cb)))
              [ex_block ''cr-1'' ''pending'']
            = [Update ''pcluster-cr-1'' ''q1-st-cr1-1,q1-st-cr1-2'']"
    by (simp add: eval_defs)
  show ?thesis
    using second_reconciliation_only_updates [OF h1 h2] by (simp add: eval_defs)
qed

subsection \<open>A describe call that raises\<close>

text \<open>
  Claim C3, as stated: when the describe call raises, the record mapping, the timestamp
  and the cached list are as before the refresh. It fails for the record mapping:
  \<^verbatim>\<open>_update_capacity_blocks_info_from_ec2\<close> assigns to \<^verbatim>\<open>self._capacity_blocks\<close> the
  records derived from the configuration before EC2 is called. On a manager as
  \<^verbatim>\<open>__init__\<close> leaves it, with the empty mapping, the method raises the error of the
  describe call and leaves a mapping with the record of \<^verbatim>\<open>cr-1\<close> behind.
\<close>

theorem failed_describe_overwrites_records:
  "fst (update_capacity_blocks_info_from_ec2 (new_CapacityBlockManager ex_fleet_cb)
          ex_world_ec2_down)
     = Inl (Ec2ClientError ''InternalError'')
   \<and> capacity_blocks (new_CapacityBlockManager ex_fleet_cb) = []
   \<and> capacity_blocks (fst (snd (update_capacity_blocks_info_from_ec2
          (new_CapacityBlockManager ex_fleet_cb) ex_world_ec2_down)))
     = [(''cr-1'', new_CapacityBlock ''cr-1'' ''q1'' ''cr1'')]"
  by (simp add: eval_defs)

text \<open>
  Claim C3, amended. When \<^verbatim>\<open>_update_capacity_blocks_info_from_ec2\<close> derives a non-empty
  record mapping from the configuration and the describe call raises, the method raises
  that error; the timestamp and the cached list of reserved node names are as before, no
  Slurm command has been issued, and the record mapping is the one freshly derived from
  the configuration.
\<close>

theorem failed_describe_replaces_only_records:
  assumes "capacity_blocks_from_config m = Inr cbs" and "cbs \<noteq> []"
    and "ec2_response w (map fst cbs) = Inl e"
  shows "update_capacity_blocks_info_from_ec2 m w
           = (Inl e, m\<lparr>capacity_blocks := cbs\<rparr>, w\<lparr>ec2_calls := ec2_calls w @ [map fst cbs]\<rparr>)"
  using assms
  by (simp add: update_capacity_blocks_info_from_ec2_def Let_def)

theorem failed_describe_replaces_only_records_witness:
  "capacity_blocks_from_config (new_CapacityBlockManager ex_fleet_cb)
       = Inr [(''cr-1'', new_CapacityBlock ''cr-1'' ''q1'' ''cr1'')]
   \<and> ec2_response ex_world_ec2_down (map fst [(''cr-1'', new_CapacityBlock ''cr-1'' ''q1'' ''cr1'')])
       = Inl (Ec2ClientError ''InternalError'')
   \<and> update_capacity_blocks_info_from_ec2 (new_CapacityBlockManager ex_fleet_cb) ex_world_ec2_down
       = (Inl (Ec2ClientError ''InternalError''),
          (new_CapacityBlockManager ex_fleet_cb)\<lparr>capacity_blocks :=
             [(''cr-1'', new_CapacityBlock ''cr-1'' ''q1'' ''cr1'')]\<rparr>,
          ex_world_ec2_down\<lparr>ec2_calls := ec2_calls ex_world_ec2_down @ [''cr-1''] # []\<rparr>)"
proof -
  let ?cbs = "[(''cr-1'', new_CapacityBlock ''cr-1'' ''q1'' ''cr1'')]"
  have h2: "capacity_blocks_from_config (new_CapacityBlockManager ex_fleet_cb) = Inr ?cbs"
    by (simp add: eval_defs)
  have h3: "?cbs \<noteq> []" by simp
  have h4: "ec2_response ex_world_ec2_down (map fst ?cbs) = Inl (Ec2ClientError ''InternalError'')"
    by (simp add: eval_defs)
  show ?thesis
    using h2 h4 failed_describe_replaces_only_records [OF h2 h3 h4] by simp
qed

subsection \<open>A capacity block without EC2 info\<close>

text \<open>
  The loop that stores the infos EC2 returned touches only the records whose ids it
  returned: a record whose id is absent from the response stays as the projection made
  it, with \<^verbatim>\<open>None\<close> as EC2 info.
\<close>

lemma store_ec2_infos_absent_id:
  "k \<notin> capacity_reservation_id ` set infos
   \<Longrightarrow> map_of (snd (store_ec2_infos infos cbs)) k = map_of cbs k"
proof (induction infos arbitrary: cbs)
  case Nil
  then show ?case by simp
next
  case (Cons info rest)
  then show ?case
    by (cases "map_of cbs (capacity_reservation_id info)") (simp_all add: update_conv')
qed

text \<open>
  Claim C4. For a configured capacity block that the describe call does not report, the
  claim asks the reconciliation to treat the block as not active and to reserve its
  nodes without an error. The code does not: the block keeps \<^verbatim>\<open>None\<close> as EC2 info, and
  for every block without EC2 info and every world \<^verbatim>\<open>_update_slurm_reservation\<close> issues
  the existence query and then raises AttributeError in \<^verbatim>\<open>is_active()\<close>: it returns no
  node names and neither creates nor updates the reservation.
\<close>

theorem block_without_ec2_info_raises:
  "manager_update_slurm_reservation (cb\<lparr>capacity_block_reservation_info := None\<rparr>) w
     = (Inl (AttributeError ''state''),
        w\<lparr>slurm_calls := slurm_calls w @ [DoesExist (slurm_reservation_name cb)]\<rparr>)"
  by (simp add: manager_update_slurm_reservation_def does_slurm_reservation_exist_def
        is_active_def state_def slurm_reservation_name_def Let_def)

subsection \<open>A compute resource without capacity type\<close>

lemma in_update:
  "kv \<in> set (AList.update k v al) \<Longrightarrow> kv = (k, v) \<or> kv \<in> set al"
  by (induction al) (auto split: if_splits)

lemma project_compute_resource_inv:
  assumes "project_compute_resource q entry acc = Inr acc'"
    and "\<forall>kv \<in> set acc. R (snd kv)"
    and "\<And>cb_id. is_compute_resource_associated_to_capacity_block (snd entry)
           \<Longrightarrow> R (new_CapacityBlock cb_id q (fst entry))"
  shows "\<forall>kv \<in> set acc'. R (snd kv)"
proof (cases "is_compute_resource_associated_to_capacity_block (snd entry)")
  case False
  then show ?thesis using assms(1,2) by (simp add: project_compute_resource_def)
next
  case True
  with assms(1) obtain cb_id where
    acc': "acc' = AList.update cb_id (new_CapacityBlock cb_id q (fst entry)) acc"
    by (auto simp: project_compute_resource_def split: sum.splits)
  show ?thesis
  proof
    fix kv
    assume "kv \<in> set acc'"
    then have "kv = (cb_id, new_CapacityBlock cb_id q (fst entry)) \<or> kv \<in> set acc"
      unfolding acc' by (rule in_update)
    then show "R (snd kv)"
      using assms(2) assms(3) [OF True, of cb_id] by auto
  qed
qed

lemma project_queue_inv:
  assumes "project_queue q qc acc = Inr acc'"
    and "\<forall>kv \<in> set acc. R (snd kv)"
    and "\<And>cb_id entry. entry \<in> set qc
           \<Longrightarrow> is_compute_resource_associated_to_capacity_block (snd entry)
           \<Longrightarrow> R (new_CapacityBlock cb_id q (fst entry))"
  shows "\<forall>kv \<in> set acc'. R (snd kv)"
  using assms
proof (induction qc arbitrary: acc)
  case Nil
  then show ?case by simp
next
  case (Cons entry rest)
  from Cons.prems(1) obtain acc1 where
    step: "project_compute_resource q entry acc = Inr acc1"
    and run: "project_queue q rest acc1 = Inr acc'"
    by (auto split: sum.splits)
  have "\<forall>kv \<in> set acc1. R (snd kv)"
    using step Cons.prems(2)
  proof (rule project_compute_resource_inv)
    fix cb_id
    assume "is_compute_resource_associated_to_capacity_block (snd entry)"
    then show "R (new_CapacityBlock cb_id q (fst entry))"
      using Cons.prems(3) by simp
  qed
  then show ?case
    using Cons.IH [OF run] Cons.prems(3) by simp
qed

lemma project_fleet_inv:
  assumes "project_fleet fc acc = Inr acc'"
    and "\<forall>kv \<in> set acc. R (snd kv)"
    and "\<And>cb_id qe entry. qe \<in> set fc \<Longrightarrow> entry \<in> set (snd qe)
           \<Longrightarrow> is_compute_resource_associated_to_capacity_block (snd entry)
           \<Longrightarrow> R (new_CapacityBlock cb_id (fst qe) (fst entry))"
  shows "\<forall>kv \<in> set acc'. R (snd kv)"
  using assms
proof (induction fc arbitrary: acc)
  case Nil
  then show ?case by simp
next
  case (Cons qe rest)
  from Cons.prems(1) obtain acc1 where
    step: "project_queue (fst qe) (snd qe) acc = Inr acc1"
    and run: "project_fleet rest acc1 = Inr acc'"
    by (auto split: sum.splits)
  have "\<forall>kv \<in> set acc1. R (snd kv)"
    using step Cons.prems(2)
  proof (rule project_queue_inv)
    fix cb_id entry
    assume "entry \<in> set (snd qe)"
      and "is_compute_resource_associated_to_capacity_block (snd entry)"
    then show "R (new_CapacityBlock cb_id (fst qe) (fst entry))"
      using Cons.prems(3) by simp
  qed
  then show ?case
    using Cons.IH [OF run] Cons.prems(3) by simp
qed

lemma capacity_blocks_from_config_fresh:
  assumes "capacity_blocks_from_config m = Inr cbs"
  shows "\<forall>kv \<in> set cbs. from_capacity_block_entry (fleet_config m) (snd kv)
                          \<and> nodenames (snd kv) = []"
proof (rule project_fleet_inv [of "fleet_config m" "[]" cbs])
  show "project_fleet (fleet_config m) [] = Inr cbs"
    using assms by (simp add: capacity_blocks_from_config_def)
  show "\<forall>kv \<in> set []. from_capacity_block_entry (fleet_config m) (snd kv)
                        \<and> nodenames (snd kv) = []"
    by simp
next
  fix cb_id qe entry
  assume "qe \<in> set (fleet_config m)" "entry \<in> set (snd qe)"
    "is_compute_resource_associated_to_capacity_block (snd entry)"
  then have "from_capacity_block_entry (fleet_config m)
               (new_CapacityBlock cb_id (fst qe) (fst entry))"
    unfolding from_capacity_block_entry_def new_CapacityBlock_def by force
  then show "from_capacity_block_entry (fleet_config m)
               (new_CapacityBlock cb_id (fst qe) (fst entry))
     \<and> nodenames (new_CapacityBlock cb_id (fst qe) (fst entry)) = []"
    by (simp add: new_CapacityBlock_def)
qed

lemma store_ec2_infos_inv:
  assumes "\<And>info cb. R cb \<Longrightarrow> R (update_ec2_info info cb)"
    and "\<forall>kv \<in> set cbs. R (snd kv)"
  shows "\<forall>kv \<in> set (snd (store_ec2_infos infos cbs)). R (snd kv)"
  using assms(2)
proof (induction infos arbitrary: cbs)
  case Nil
  then show ?case by simp
next
  case (Cons info rest)
  show ?case
  proof (cases "map_of cbs (capacity_reservation_id info)")
    case None
    then show ?thesis using Cons.prems by simp
  next
    case (Some cb)
    then have "(capacity_reservation_id info, cb) \<in> set cbs"
      by (rule map_of_SomeD)
    then have "R cb" using Cons.prems by force
    then have new: "R (update_ec2_info info cb)"
      by (rule assms(1))
    have "\<forall>kv \<in> set (AList.update (capacity_reservation_id info)
                         (update_ec2_info info cb) cbs). R (snd kv)"
    proof
      fix kv
      assume "kv \<in> set (AList.update (capacity_reservation_id info)
                           (update_ec2_info info cb) cbs)"
      then have "kv = (capacity_reservation_id info, update_ec2_info info cb) \<or> kv \<in> set cbs"
        by (rule in_update)
      then show "R (snd kv)" using new Cons.prems by auto
    qed
    from Cons.IH [OF this] show ?thesis using Some by simp
  qed
qed

lemma refreshed_blocks_fresh:
  assumes "update_capacity_blocks_info_from_ec2 m w = (Inr u, m1, w1)"
  shows "\<forall>kv \<in> set (capacity_blocks m1).
           from_capacity_block_entry (fleet_config m) (snd kv) \<and> nodenames (snd kv) = []"
proof (cases "capacity_blocks_from_config m")
  case (Inl e)
  then show ?thesis using assms by (simp add: update_capacity_blocks_info_from_ec2_def)
next
  case (Inr cbs)
  note fresh = capacity_blocks_from_config_fresh [OF Inr]
  show ?thesis
  proof (cases "cbs = []")
    case True
    then show ?thesis using assms Inr
      by (auto simp: update_capacity_blocks_info_from_ec2_def)
  next
    case False
    have "\<exists>infos. capacity_blocks m1 = snd (store_ec2_infos infos cbs)"
    proof (cases "ec2_response w (map fst cbs)")
      case (Inl e)
      then show ?thesis using assms Inr False
        by (simp add: update_capacity_blocks_info_from_ec2_def Let_def)
    next
      case infos: (Inr infos)
      obtain r cbs' where st: "store_ec2_infos infos cbs = (r, cbs')"
        by (cases "store_ec2_infos infos cbs") auto
      then have "capacity_blocks m1 = cbs'"
        using assms Inr False infos
        by (cases r) (auto simp: update_capacity_blocks_info_from_ec2_def Let_def)
      then show ?thesis using st by (intro exI [of _ infos]) simp
    qed
    then obtain infos where
      m1: "capacity_blocks m1 = snd (store_ec2_infos infos cbs)" ..
    have "\<forall>kv \<in> set (snd (store_ec2_infos infos cbs)).
            from_capacity_block_entry (fleet_config m) (snd kv) \<and> nodenames (snd kv) = []"
      using _ fresh
    proof (rule store_ec2_infos_inv)
      fix info cb
      assume "from_capacity_block_entry (fleet_config m) cb \<and> nodenames cb = []"
      then show "from_capacity_block_entry (fleet_config m) (update_ec2_info info cb)
                 \<and> nodenames (update_ec2_info info cb) = []"
        by (simp add: from_capacity_block_entry_def update_ec2_info_def)
    qed
    then show ?thesis using m1 by simp
  qed
qed

lemma add_nodename_inv:
  assumes "node \<in> set nodes" and "does_node_belong_to cb node"
    and "from_capacity_block_entry fc cb \<and> bound_to_own_nodes nodes cb"
  shows "from_capacity_block_entry fc (add_nodename (node_name node) cb)
         \<and> bound_to_own_nodes nodes (add_nodename (node_name node) cb)"
proof
  show "from_capacity_block_entry fc (add_nodename (node_name node) cb)"
    using assms(3) by (simp add: from_capacity_block_entry_def add_nodename_def)
  have old: "\<forall>x \<in> set (nodenames cb). \<exists>n \<in> set nodes. node_name n = x \<and> does_node_belong_to cb n"
    using assms(3) by (simp add: bound_to_own_nodes_def)
  have same: "does_node_belong_to (add_nodename x cb) n = does_node_belong_to cb n" for x n
    by (simp add: does_node_belong_to_def add_nodename_def)
  show "bound_to_own_nodes nodes (add_nodename (node_name node) cb)"
    unfolding bound_to_own_nodes_def same
    using old assms(1,2) by (auto simp: add_nodename_def)
qed

lemma associate_node_inv:
  assumes "node \<in> set nodes"
    and "\<forall>kv \<in> set cbs. from_capacity_block_entry fc (snd kv) \<and> bound_to_own_nodes nodes (snd kv)"
  shows "\<forall>kv \<in> set (associate_node node cbs).
           from_capacity_block_entry fc (snd kv) \<and> bound_to_own_nodes nodes (snd kv)"
  using assms(2)
proof (induction cbs)
  case Nil
  then show ?case by simp
next
  case (Cons kv rest)
  show ?case
  proof (cases "does_node_belong_to (snd kv) node")
    case True
    have "from_capacity_block_entry fc (snd kv) \<and> bound_to_own_nodes nodes (snd kv)"
      using Cons.prems by simp
    from add_nodename_inv [OF assms(1) True this]
    show ?thesis using True Cons.prems by simp
  next
    case False
    then show ?thesis using Cons by simp
  qed
qed

lemma associate_nodenames_inv:
  assumes "set ns \<subseteq> set nodes"
    and "\<forall>kv \<in> set cbs. from_capacity_block_entry fc (snd kv) \<and> bound_to_own_nodes nodes (snd kv)"
  shows "\<forall>kv \<in> set (associate_nodenames_to_capacity_blocks ns cbs).
           from_capacity_block_entry fc (snd kv) \<and> bound_to_own_nodes nodes (snd kv)"
  using assms
proof (induction ns arbitrary: cbs)
  case Nil
  then show ?case by simp
next
  case (Cons node rest)
  from Cons.prems(1) have "node \<in> set nodes" and sub: "set rest \<subseteq> set nodes" by simp_all
  from associate_node_inv [OF this(1) Cons.prems(2)] Cons.IH [OF sub]
  show ?case by simp
qed

lemma reserved_of_capacity_block_entry:
  assumes "from_capacity_block_entry fc cb" and "bound_to_own_nodes nodes cb"
    and "x \<in> set (nodenames cb)"
  shows "\<exists>n \<in> set nodes. node_name n = x \<and>
           (\<exists>qe \<in> set fc. \<exists>entry \<in> set (snd qe).
              is_compute_resource_associated_to_capacity_block (snd entry)
              \<and> node_queue_name n = fst qe \<and> node_compute_resource_name n = fst entry)"
proof -
  from assms(2,3) obtain n where n: "n \<in> set nodes" "node_name n = x" "does_node_belong_to cb n"
    by (auto simp: bound_to_own_nodes_def)
  from assms(1) obtain qe entry where e: "qe \<in> set fc" "entry \<in> set (snd qe)"
    "is_compute_resource_associated_to_capacity_block (snd entry)"
    "queue_name cb = fst qe" "compute_resource_name cb = fst entry"
    by (auto simp: from_capacity_block_entry_def)
  from n(3) e(4,5) have "node_queue_name n = fst qe" "node_compute_resource_name n = fst entry"
    by (simp_all add: does_node_belong_to_def)
  with n(1,2) e(1,2,3) show ?thesis by blast
qed

lemma refresh_reserved_nodes:
  assumes "is_time_to_update m w = Inr True"
    and "fst (get_reserved_nodenames nodes m w) = Inr reserved"
    and "x \<in> set reserved"
  shows "\<exists>n \<in> set nodes. node_name n = x \<and>
           (\<exists>qe \<in> set (fleet_config m). \<exists>entry \<in> set (snd qe).
              is_compute_resource_associated_to_capacity_block (snd entry)
              \<and> node_queue_name n = fst qe \<and> node_compute_resource_name n = fst entry)"
proof -
  obtain r1 m1 w1 where upd: "update_capacity_blocks_info_from_ec2 m w = (r1, m1, w1)"
    by (cases "update_capacity_blocks_info_from_ec2 m w") auto
  let ?cbs = "associate_nodenames_to_capacity_blocks nodes (capacity_blocks m1)"
  obtain r2 w2 where run: "update_slurm_reservations (map snd ?cbs) [] w1 = (r2, w2)"
    by (cases "update_slurm_reservations (map snd ?cbs) [] w1") auto
  from assms(1,2) upd run obtain u where r1: "r1 = Inr u" and r2: "r2 = Inr reserved"
    by (auto simp: get_reserved_nodenames_def Let_def split: sum.splits)
  from refreshed_blocks_fresh [OF upd [unfolded r1]]
  have "\<forall>kv \<in> set (capacity_blocks m1).
          from_capacity_block_entry (fleet_config m) (snd kv) \<and> bound_to_own_nodes nodes (snd kv)"
    by (simp add: bound_to_own_nodes_def)
  from associate_nodenames_inv [OF subset_refl this]
  have inv: "\<forall>kv \<in> set ?cbs.
          from_capacity_block_entry (fleet_config m) (snd kv) \<and> bound_to_own_nodes nodes (snd kv)" .
  from run_result [OF run [unfolded r2]]
  have "reserved = concat (map (\<lambda>cb. if is_active cb = Inr True then [] else nodenames cb)
                             (map snd ?cbs))"
    by simp
  with assms(3) obtain kv where kv: "kv \<in> set ?cbs" "x \<in> set (nodenames (snd kv))"
    by (auto split: if_splits)
  from inv kv(1) have "from_capacity_block_entry (fleet_config m) (snd kv)"
    and "bound_to_own_nodes nodes (snd kv)" by simp_all
  from reserved_of_capacity_block_entry [OF this kv(2)] show ?thesis .
qed

text \<open>
  Claim C10. A compute resource whose configuration has no \<^verbatim>\<open>CapacityType\<close> is not
  associated to a capacity block; the projection passes over it, leaving the records
  built so far as they are and raising nothing; and when the queues of the fleet and the
  compute resources of its queue have unique names (as the keys of a dict have) and the
  nodes have unique names, a refresh that returns a list of reserved node names returns
  none of the nodes of that compute resource.
\<close>

theorem no_capacity_type_not_capacity_block:
  assumes "map_of crc ''CapacityType'' = None"
  shows "\<not> is_compute_resource_associated_to_capacity_block crc
    \<and> project_compute_resource q (cr, crc) acc = Inr acc
    \<and> (distinct (map fst (fleet_config m)) \<and> (q, qc) \<in> set (fleet_config m)
        \<and> distinct (map fst qc) \<and> (cr, crc) \<in> set qc
        \<and> distinct (map node_name nodes) \<and> node \<in> set nodes
        \<and> node_queue_name node = q \<and> node_compute_resource_name node = cr
        \<and> is_time_to_update m w = Inr True
        \<and> fst (get_reserved_nodenames nodes m w) = Inr reserved
       \<longrightarrow> node_name node \<notin> set reserved)"
proof -
  have not_cb: "\<not> is_compute_resource_associated_to_capacity_block crc"
    using assms by (rule no_capacity_type)
  then have skip: "project_compute_resource q (cr, crc) acc = Inr acc"
    by (simp add: project_compute_resource_def)
  have free: "node_name node \<notin> set reserved"
    if fc: "distinct (map fst (fleet_config m))" "(q, qc) \<in> set (fleet_config m)"
      and qc: "distinct (map fst qc)" "(cr, crc) \<in> set qc"
      and nodes: "distinct (map node_name nodes)" "node \<in> set nodes"
      and ident: "node_queue_name node = q" "node_compute_resource_name node = cr"
      and refresh: "is_time_to_update m w = Inr True"
        "fst (get_reserved_nodenames nodes m w) = Inr reserved"
  proof
    assume "node_name node \<in> set reserved"
    from refresh_reserved_nodes [OF refresh this]
    obtain n qe entry where n: "n \<in> set nodes" "node_name n = node_name node"
      and qe: "qe \<in> set (fleet_config m)" and entry: "entry \<in> set (snd qe)"
      and cb: "is_compute_resource_associated_to_capacity_block (snd entry)"
      and same: "node_queue_name n = fst qe" "node_compute_resource_name n = fst entry"
      by blast
    from nodes(1) have "inj_on node_name (set nodes)"
      by (simp add: distinct_map)
    from inj_onD [OF this n(2) n(1) nodes(2)] have "n = node" .
    with same ident have keys: "fst qe = q" "fst entry = cr" by simp_all
    from qe keys(1) have "(q, snd qe) \<in> set (fleet_config m)"
      by (metis prod.collapse)
    from eq_key_imp_eq_value [OF fc(1) this fc(2)] have "snd qe = qc" .
    with entry keys(2) have "(cr, snd entry) \<in> set qc"
      by (metis prod.collapse)
    from eq_key_imp_eq_value [OF qc(1) this qc(2)] have "snd entry = crc" .
    with cb not_cb show False by simp
  qed
  from not_cb skip free show ?thesis by blast
qed

theorem no_capacity_type_not_capacity_block_witness:
  "map_of [(''Api'', ''create-fleet'')] ''CapacityType'' = None
   \<and> distinct (map fst (fleet_config (ex_manager ex_fleet_mixed)))
   \<and> (''q1'', snd (hd ex_fleet_mixed)) \<in> set (fleet_config (ex_manager ex_fleet_mixed))
   \<and> distinct (map fst (snd (hd ex_fleet_mixed)))
   \<and> (''cr2'', [(''Api'', ''create-fleet'')]) \<in> set (snd (hd ex_fleet_mixed))
   \<and> distinct (map node_name [ex_node, ex_node2]) \<and> ex_node2 \<in> set [ex_node, ex_node2]
   \<and> node_queue_name ex_node2 = ''q1'' \<and> node_compute_resource_name ex_node2 = ''cr2''
   \<and> is_time_to_update (ex_manager ex_fleet_mixed) ex_world_pending = Inr True
   \<and> fst (get_reserved_nodenames [ex_node, ex_node2] (ex_manager ex_fleet_mixed) ex_world_pending)
       = Inr [''q1-st-cr1-1'']
   \<and> \<not> is_compute_resource_associated_to_capacity_block [(''Api'', ''create-fleet'')]
   \<and> project_compute_resource ''q1'' (''cr2'', [(''Api'', ''create-fleet'')]) [] = Inr []
   \<and> node_name ex_node2 \<notin> set [''q1-st-cr1-1'']"
proof -
  have h: "map_of [(''Api'', ''create-fleet'')] ''CapacityType'' = None" by simp
  show ?thesis
    using h no_capacity_type_not_capacity_block [OF h, of "''q1''" "''cr2''" "[]" "ex_manager ex_fleet_mixed"
        "snd (hd ex_fleet_mixed)" "[ex_node, ex_node2]" ex_node2 ex_world_pending
        "[''q1-st-cr1-1'']"]
    by (simp add: eval_defs)
qed

end
